theory Spec2Isabelle
  imports Main
begin

section \<open>JavaScript values of the Slack responses\<close>

text \<open>
  The script works on what \<^verbatim>\<open>JSON.parse\<close> returns: null, booleans, numbers, strings,
  arrays and objects. Numbers are modelled as integers (the responses carry counts and
  epoch seconds), strings as byte strings of well-formed text, an object as the list of
  its own properties. The value \<^verbatim>\<open>undefined\<close> of an absent property is \<open>None\<close>.
\<close>

datatype json =
    JNull
  | JBool bool
  | JNum int
  | JStr string
  | JArr "json list"
  | JObj "(string \<times> json) list"

text \<open>An exception value: what a platform call threw (with its message), or a TypeError.\<close>

datatype exn = PlatformError string | TypeError

text \<open>
  Primitives of the JavaScript engine that the script reaches through coercions and
  that are taken as given: whether a string converts to the number zero
  (\<^verbatim>\<open>ToNumber(s)\<close> is \<open>+0\<close> or \<open>-0\<close>), and
  \<^verbatim>\<open>new Date(v * 1000).toISOString()\<close>, which is \<open>None\<close> when the expression throws.
\<close>

record runtime =
  stringIsZero :: "string \<Rightarrow> bool"
  isoOfSeconds :: "json \<Rightarrow> string option"

text \<open>Truthiness of a value, as \<^verbatim>\<open>if (v)\<close>, \<^verbatim>\<open>!v\<close> and \<^verbatim>\<open>&&\<close> read it.\<close>

fun truthy :: "json option \<Rightarrow> bool" where
  "truthy None = False"
| "truthy (Some JNull) = False"
| "truthy (Some (JBool b)) = b"
| "truthy (Some (JNum n)) = (n \<noteq> 0)"
| "truthy (Some (JStr s)) = (s \<noteq> [])"
| "truthy (Some (JArr xs)) = True"
| "truthy (Some (JObj kvs)) = True"

text \<open>
  Reading a property \<^verbatim>\<open>v.k\<close> of a value that is not null: an own property of an
  object, \<^verbatim>\<open>undefined\<close> otherwise (none of the names the script reads is a built-in
  property of a string, number, boolean or array). On null the read throws a TypeError,
  which \<open>getProp\<close> returns.
\<close>

fun field :: "json \<Rightarrow> string \<Rightarrow> json option" where
  "field (JObj kvs) k = map_of kvs k"
| "field v k = None"

fun getProp :: "json \<Rightarrow> string \<Rightarrow> exn + json option" where
  "getProp JNull k = Inl TypeError"
| "getProp v k = Inr (field v k)"

subsection \<open>Conversion to a string\<close>

fun digitsOf :: "nat \<Rightarrow> string" where
  "digitsOf n =
     (if n < 10 then [char_of (48 + n)]
      else digitsOf (n div 10) @ [char_of (48 + n mod 10)])"

declare digitsOf.simps [simp del]

definition numberToString :: "int \<Rightarrow> string" where
  "numberToString n = (if n < 0 then CHR ''-'' # digitsOf (nat (- n)) else digitsOf (nat n))"

text \<open>\<^verbatim>\<open>Array.prototype.join\<close> on texts already converted.\<close>

fun joinWith :: "string \<Rightarrow> string list \<Rightarrow> string" where
  "joinWith sep [] = []"
| "joinWith sep [x] = x"
| "joinWith sep (x # y # ys) = x @ sep @ joinWith sep (y # ys)"

text \<open>Evaluating a list of fallible conversions from left to right: the first throw wins.\<close>

fun sequence :: "(exn + 'a) list \<Rightarrow> exn + 'a list" where
  "sequence [] = Inr []"
| "sequence (Inl e # rs) = Inl e"
| "sequence (Inr x # rs) = (case sequence rs of Inl e \<Rightarrow> Inl e | Inr xs \<Rightarrow> Inr (x # xs))"

text \<open>
  \<^verbatim>\<open>ToString\<close> of a parsed value, as string concatenation and template literals apply
  it. An array joins its elements with a comma, null elements as the empty string. An
  object gives \<^verbatim>\<open>[object Object]\<close> through the inherited method, unless it has an own
  property \<^verbatim>\<open>toString\<close>, which after \<^verbatim>\<open>JSON.parse\<close> is never callable: then the
  conversion throws a TypeError.
\<close>

fun toString :: "json \<Rightarrow> exn + string" where
  "toString JNull = Inr ''null''"
| "toString (JBool b) = Inr (if b then ''true'' else ''false'')"
| "toString (JNum n) = Inr (numberToString n)"
| "toString (JStr s) = Inr s"
| "toString (JArr xs) =
     (case sequence (map (\<lambda>x. case x of JNull \<Rightarrow> Inr [] | _ \<Rightarrow> toString x) xs) of
        Inl e \<Rightarrow> Inl e
      | Inr ts \<Rightarrow> Inr (joinWith '','' ts))"
| "toString (JObj kvs) =
     (if map_of kvs ''toString'' \<noteq> None then Inl TypeError else Inr ''[object Object]'')"

fun toStringU :: "json option \<Rightarrow> exn + string" where
  "toStringU None = Inr ''undefined''"
| "toStringU (Some v) = toString v"

text \<open>
  The comparison \<^verbatim>\<open>v == 0\<close>: null is equal to nothing but null and undefined, a boolean
  is compared as 0 or 1, a string through its numeric value, an array or object through
  its primitive, which is its string (an object's \<^verbatim>\<open>[object Object]\<close> is not a number).
\<close>

fun looseEqZero :: "runtime \<Rightarrow> json \<Rightarrow> exn + bool" where
  "looseEqZero R JNull = Inr False"
| "looseEqZero R (JBool b) = Inr (\<not> b)"
| "looseEqZero R (JNum n) = Inr (n = 0)"
| "looseEqZero R (JStr s) = Inr (stringIsZero R s)"
| "looseEqZero R (JArr xs) =
     (case toString (JArr xs) of Inl e \<Rightarrow> Inl e | Inr s \<Rightarrow> Inr (stringIsZero R s))"
| "looseEqZero R (JObj kvs) =
     (if map_of kvs ''toString'' \<noteq> None then Inl TypeError else Inr False)"

subsection \<open>String helpers\<close>

definition endsWith :: "string \<Rightarrow> string \<Rightarrow> bool" where
  "endsWith s suf = (length suf \<le> length s \<and> drop (length s - length suf) s = suf)"

definition hexDigit :: "nat \<Rightarrow> char" where
  "hexDigit k = (if k < 10 then char_of (48 + k) else char_of (55 + k))"

definition unreserved :: "char \<Rightarrow> bool" where
  "unreserved c =
     (let k = (of_char c :: nat) in
        (65 \<le> k \<and> k \<le> 90) \<or> (97 \<le> k \<and> k \<le> 122) \<or> (48 \<le> k \<and> k \<le> 57)
        \<or> c \<in> set ''-_.!~*'' \<or> k = 39 \<or> c \<in> set ''()'')"

text \<open>\<^verbatim>\<open>encodeURIComponent\<close> on the bytes of a text.\<close>

definition encodeByte :: "char \<Rightarrow> string" where
  "encodeByte c =
     (if unreserved c then [c]
      else [CHR ''%'', hexDigit ((of_char c :: nat) div 16), hexDigit ((of_char c :: nat) mod 16)])"

definition encodeURIComponent :: "string \<Rightarrow> string" where
  "encodeURIComponent s = concat (map encodeByte s)"

section \<open>encodeQueryData\<close>

text \<open>
  The payload object is the list of its properties in enumeration order; a property
  whose value is \<^verbatim>\<open>undefined\<close> holds \<open>None\<close>. Keys are strings, values are converted
  by \<^verbatim>\<open>encodeURIComponent\<close>, which may throw through \<open>toString\<close>.
\<close>

type_synonym payload = "(string \<times> json option) list"

fun encodePairs :: "payload \<Rightarrow> (exn + string) list" where
  "encodePairs [] = []"
| "encodePairs ((d, None) # rest) = encodePairs rest"
| "encodePairs ((d, Some v) # rest) =
     (case toString v of
        Inl e \<Rightarrow> Inl e
      | Inr t \<Rightarrow> Inr (encodeURIComponent d @ ''='' @ encodeURIComponent t)) # encodePairs rest"

definition encodeQueryData :: "payload \<Rightarrow> exn + string" where
  "encodeQueryData data =
     (case sequence (encodePairs data) of Inl e \<Rightarrow> Inl e | Inr ret \<Rightarrow> Inr (joinWith ''&'' ret))"

section \<open>Effects: the log and the requests\<close>

text \<open>
  One constructor per \<^verbatim>\<open>Logger.log\<close> call of the script. A text argument is what the
  call concatenates to its message with \<^verbatim>\<open>+\<close>; a \<open>json\<close> argument is the value the call
  serialises (\<^verbatim>\<open>JSON.stringify\<close>, or the response text the value was parsed from).
\<close>

datatype log_line =
    TokenMissing
  | TeamIdMissing
  | ErrorFetching string
  | Response json
  | UnexpectedUsers json
  | TotalUsers nat
  | ProcessingUser json
  | SkippingDeleted string
  | SkippingNotGuest string
  | SkippingDomain string
  | DateError string
  | NoCreationDate string
  | GuestsFound nat
  | NoGuestsFound
  | ErrorOccurred exn
  | ErrorPosting string
  | PostFullResponse json
  | PostedSuccessfully string
  | PostException exn

text \<open>
  What the script does to the outside, in order: a log line, a call of
  \<^verbatim>\<open>admin.users.list\<close> with its form body, a call of \<^verbatim>\<open>chat.postMessage\<close> with
  channel, text and token.
\<close>

datatype event =
    Log log_line
  | ListRequest string
  | PostRequest string string string

text \<open>The entry pushed on \<^verbatim>\<open>guestsWithoutExpiration\<close>.\<close>

record guest =
  g_email :: "json option"
  g_creation_time :: string
  g_name :: "json option"
  g_id :: "json option"

record state =
  guestsWithoutExpiration :: "guest list"
  trace :: "event list"

definition logLine :: "log_line \<Rightarrow> state \<Rightarrow> state" where
  "logLine l s = s\<lparr>trace := trace s @ [Log l]\<rparr>"

text \<open>
  What \<^verbatim>\<open>UrlFetchApp.fetch\<close> followed by \<^verbatim>\<open>JSON.parse\<close> gives: either of them throws,
  or the parsed body.
\<close>

datatype http_outcome = FetchFails string | Answers json

text \<open>How a block ends: it falls through, it returns from the function, or it throws.\<close>

datatype control = Next | Return | Throw exn

section \<open>The callback of \<^verbatim>\<open>users.forEach\<close>\<close>

text \<open>A log call whose message ends with \<^verbatim>\<open>+ user.id\<close>.\<close>

definition logWithId :: "(string \<Rightarrow> log_line) \<Rightarrow> json \<Rightarrow> state \<Rightarrow> exn option \<times> state" where
  "logWithId mk user s =
     (case toStringU (field user ''id'') of
        Inl e \<Rightarrow> (Some e, s)
      | Inr t \<Rightarrow> (None, logLine (mk t) s))"

text \<open>\<^verbatim>\<open>user.email && user.email.endsWith("@domain.com")\<close>\<close>

fun emailExcluded :: "json option \<Rightarrow> exn + bool" where
  "emailExcluded (Some (JStr s)) = Inr (s \<noteq> [] \<and> endsWith s ''@domain.com'')"
| "emailExcluded e = (if truthy e then Inl TypeError else Inr False)"

text \<open>\<^verbatim>\<open>user.expiration_ts == 0 || user.expiration_ts === undefined\<close>\<close>

fun noExpiration :: "runtime \<Rightarrow> json option \<Rightarrow> exn + bool" where
  "noExpiration R None = Inr True"
| "noExpiration R (Some v) = looseEqZero R v"

text \<open>The computation of \<^verbatim>\<open>creationTime\<close>, with its inner try and catch.\<close>

definition creationTimeOf :: "runtime \<Rightarrow> json \<Rightarrow> state \<Rightarrow> (exn + string) \<times> state" where
  "creationTimeOf R user s =
     (case (if truthy (field user ''date_created'') then field user ''date_created'' else None) of
        Some created \<Rightarrow>
          (case isoOfSeconds R created of
             Some t \<Rightarrow> (Inr t, s)
           | None \<Rightarrow>
               (case logWithId DateError user s of
                  (Some e, s') \<Rightarrow> (Inl e, s')
                | (None, s') \<Rightarrow> (Inr ''Unknown'', s')))
      | None \<Rightarrow>
          (case logWithId NoCreationDate user s of
             (Some e, s') \<Rightarrow> (Inl e, s')
           | (None, s') \<Rightarrow> (Inr ''Unknown'', s')))"

definition processUser :: "runtime \<Rightarrow> json \<Rightarrow> state \<Rightarrow> exn option \<times> state" where
  "processUser R user s =
     (let s1 = logLine (ProcessingUser user) s in
      case getProp user ''is_deleted'' of
        Inl e \<Rightarrow> (Some e, s1)
      | Inr deleted \<Rightarrow>
          if truthy deleted then logWithId SkippingDeleted user s1
          else if \<not> truthy (field user ''is_restricted'')
                  \<and> \<not> truthy (field user ''is_ultra_restricted'')
          then logWithId SkippingNotGuest user s1
          else
            (case emailExcluded (field user ''email'') of
               Inl e \<Rightarrow> (Some e, s1)
             | Inr excluded \<Rightarrow>
                 if excluded then logWithId SkippingDomain user s1
                 else
                   (case noExpiration R (field user ''expiration_ts'') of
                      Inl e \<Rightarrow> (Some e, s1)
                    | Inr unset \<Rightarrow>
                        if \<not> unset then (None, s1)
                        else
                          (case creationTimeOf R user s1 of
                             (Inl e, s2) \<Rightarrow> (Some e, s2)
                           | (Inr creationTime, s2) \<Rightarrow>
                               (None, s2\<lparr>guestsWithoutExpiration :=
                                  guestsWithoutExpiration s2 @
                                    [\<lparr>g_email = field user ''email'',
                                      g_creation_time = creationTime,
                                      g_name = field user ''full_name'',
                                      g_id = field user ''id''\<rparr>]\<rparr>)))))"

text \<open>\<^verbatim>\<open>users.forEach\<close>: the callback on each element in order; a throw ends the iteration.\<close>

fun forEachUser :: "runtime \<Rightarrow> json list \<Rightarrow> state \<Rightarrow> exn option \<times> state" where
  "forEachUser R [] s = (None, s)"
| "forEachUser R (user # users) s =
     (case processUser R user s of
        (Some e, s') \<Rightarrow> (Some e, s')
      | (None, s') \<Rightarrow> forEachUser R users s')"

section \<open>The pagination loop\<close>

definition buildPayload :: "string \<Rightarrow> string \<Rightarrow> int \<Rightarrow> json \<Rightarrow> payload" where
  "buildPayload token teamId limit cursor =
     [(''token'', Some (JStr token)), (''team_id'', Some (JStr teamId)),
      (''limit'', Some (JNum limit))]
     @ (if truthy (Some cursor) then [(''cursor'', Some cursor)] else [])"

text \<open>
  \<^verbatim>\<open>(data.response_metadata && data.response_metadata.next_cursor) ?
  data.response_metadata.next_cursor : ""\<close>
\<close>

definition nextCursor :: "json \<Rightarrow> json" where
  "nextCursor data =
     (case field data ''response_metadata'' of
        None \<Rightarrow> JStr []
      | Some rm \<Rightarrow>
          if truthy (Some rm) then
            (case field rm ''next_cursor'' of
               None \<Rightarrow> JStr []
             | Some c \<Rightarrow> if truthy (Some c) then c else JStr [])
          else JStr [])"

text \<open>
  The \<^verbatim>\<open>do ... while (cursor)\<close> loop. The answers of \<^verbatim>\<open>admin.users.list\<close> are given as
  the list of what the successive calls receive; each iteration takes one. The result
  is \<open>None\<close> when the loop asks for more answers than the list holds.
\<close>

fun fetchPages ::
  "runtime \<Rightarrow> string \<Rightarrow> string \<Rightarrow> json \<Rightarrow> http_outcome list \<Rightarrow> state \<Rightarrow> (control \<times> state) option"
where
  "fetchPages R token teamId cursor [] s =
     (case encodeQueryData (buildPayload token teamId 100 cursor) of
        Inl e \<Rightarrow> Some (Throw e, s)
      | Inr formData \<Rightarrow> None)"
| "fetchPages R token teamId cursor (a # answers) s =
     (case encodeQueryData (buildPayload token teamId 100 cursor) of
        Inl e \<Rightarrow> Some (Throw e, s)
      | Inr formData \<Rightarrow>
          (let s1 = s\<lparr>trace := trace s @ [ListRequest formData]\<rparr> in
           case a of
             FetchFails m \<Rightarrow> Some (Throw (PlatformError m), s1)
           | Answers data \<Rightarrow>
               (case getProp data ''ok'' of
                  Inl e \<Rightarrow> Some (Throw e, s1)
                | Inr ok \<Rightarrow>
                    if \<not> truthy ok then
                      (case toStringU (field data ''error'') of
                         Inl e \<Rightarrow> Some (Throw e, s1)
                       | Inr t \<Rightarrow>
                           Some (Return, logLine (Response data) (logLine (ErrorFetching t) s1)))
                    else
                      (case field data ''users'' of
                         Some (JArr users) \<Rightarrow>
                           (case forEachUser R users (logLine (TotalUsers (length users)) s1) of
                              (Some e, s2) \<Rightarrow> Some (Throw e, s2)
                            | (None, s2) \<Rightarrow>
                                if truthy (Some (nextCursor data))
                                then fetchPages R token teamId (nextCursor data) answers s2
                                else Some (Next, s2))
                       | _ \<Rightarrow> Some (Return, logLine (UnexpectedUsers data) s1)))))"

declare fetchPages.simps(2) [simp del]

section \<open>postToSlack\<close>

definition postToSlack :: "string \<Rightarrow> string \<Rightarrow> string \<Rightarrow> http_outcome \<Rightarrow> state \<Rightarrow> state" where
  "postToSlack channel message token answer s =
     (let s1 = s\<lparr>trace := trace s @ [PostRequest channel message token]\<rparr> in
      case answer of
        FetchFails m \<Rightarrow> logLine (PostException (PlatformError m)) s1
      | Answers result \<Rightarrow>
          (case getProp result ''ok'' of
             Inl e \<Rightarrow> logLine (PostException e) s1
           | Inr ok \<Rightarrow>
               if \<not> truthy ok then
                 (case toStringU (field result ''error'') of
                    Inl e \<Rightarrow> logLine (PostException e) s1
                  | Inr t \<Rightarrow> logLine (PostFullResponse result) (logLine (ErrorPosting t) s1))
               else logLine (PostedSuccessfully channel) s1))"

section \<open>notifySlackAboutGuestsWithoutExpiration\<close>

definition newline :: string where
  "newline = [CHR 0x0A]"

text \<open>One entry of the message: the template literal of the \<^verbatim>\<open>map\<close> callback.\<close>

definition renderGuest :: "guest \<Rightarrow> exn + string" where
  "renderGuest g =
     (case toStringU (g_email g) of
        Inl e \<Rightarrow> Inl e
      | Inr em \<Rightarrow>
          (case toStringU (g_name g) of
             Inl e \<Rightarrow> Inl e
           | Inr nm \<Rightarrow>
               (case toStringU (g_id g) of
                  Inl e \<Rightarrow> Inl e
                | Inr uid \<Rightarrow>
                    Inr (''*Email*: '' @ em @ newline @ ''*Name*: '' @ nm @ newline
                         @ ''*Creation Time*: '' @ g_creation_time g @ newline
                         @ ''*User ID*: '' @ uid))))"

definition buildMessage :: "guest list \<Rightarrow> exn + string" where
  "buildMessage guests =
     (case sequence (map renderGuest guests) of
        Inl e \<Rightarrow> Inl e
      | Inr entries \<Rightarrow>
          Inr (''Active guests without expiration:'' @ newline
               @ joinWith (newline @ newline) entries))"

text \<open>
  The configuration of a run: the script property \<^verbatim>\<open>SLACK_USER_TOKEN\<close> (\<open>None\<close> when
  the property store has none) and the two values the script's header asks to fill in.
  The outside world of a run: the answers to the list calls, and the answer to the post.
\<close>

record config =
  token :: "string option"
  teamId :: string
  channel :: string

record world =
  listAnswers :: "http_outcome list"
  postAnswer :: "http_outcome"

definition initialState :: state where
  "initialState = \<lparr>guestsWithoutExpiration = [], trace = []\<rparr>"

text \<open>The body of the outer \<^verbatim>\<open>try\<close>.\<close>

definition tryBlock :: "runtime \<Rightarrow> config \<Rightarrow> world \<Rightarrow> (control \<times> state) option" where
  "tryBlock R cfg w =
     (case (case token cfg of None \<Rightarrow> None | Some t \<Rightarrow> if t = [] then None else Some t) of
        None \<Rightarrow> Some (Return, logLine TokenMissing initialState)
      | Some tok \<Rightarrow>
          if teamId cfg = [] then Some (Return, logLine TeamIdMissing initialState)
          else
            (case fetchPages R tok (teamId cfg) (JStr []) (listAnswers w) initialState of
               None \<Rightarrow> None
             | Some (Next, s1) \<Rightarrow>
                 (let s2 = logLine (GuestsFound (length (guestsWithoutExpiration s1))) s1 in
                  if length (guestsWithoutExpiration s1) > 0 then
                    (case buildMessage (guestsWithoutExpiration s1) of
                       Inl e \<Rightarrow> Some (Throw e, s2)
                     | Inr message \<Rightarrow>
                         Some (Next, postToSlack (channel cfg) message tok (postAnswer w) s2))
                  else Some (Next, logLine NoGuestsFound s2))
             | Some (c, s1) \<Rightarrow> Some (c, s1)))"

text \<open>
  The whole function: the \<^verbatim>\<open>try\<close> with its \<^verbatim>\<open>catch\<close>. The first component of the
  result is the exception that leaves the function, \<open>None\<close> when it returns.
\<close>

definition notifySlackAboutGuestsWithoutExpiration ::
  "runtime \<Rightarrow> config \<Rightarrow> world \<Rightarrow> (exn option \<times> state) option"
where
  "notifySlackAboutGuestsWithoutExpiration R cfg w =
     (case tryBlock R cfg w of
        None \<Rightarrow> None
      | Some (Throw e, s) \<Rightarrow> Some (None, logLine (ErrorOccurred e) s)
      | Some (c, s) \<Rightarrow> Some (None, s))"

section \<open>Notions the properties are stated with\<close>

text \<open>What a trace shows: the calls of the two Slack methods, and the users processed.\<close>

fun listRequests :: "event list \<Rightarrow> string list" where
  "listRequests [] = []"
| "listRequests (ListRequest formData # es) = formData # listRequests es"
| "listRequests (e # es) = listRequests es"

fun postRequests :: "event list \<Rightarrow> (string \<times> string \<times> string) list" where
  "postRequests [] = []"
| "postRequests (PostRequest c m t # es) = (c, m, t) # postRequests es"
| "postRequests (e # es) = postRequests es"

fun processedUsers :: "event list \<Rightarrow> json list" where
  "processedUsers [] = []"
| "processedUsers (Log (ProcessingUser u) # es) = u # processedUsers es"
| "processedUsers (e # es) = processedUsers es"

fun notGuestLines :: "event list \<Rightarrow> string list" where
  "notGuestLines [] = []"
| "notGuestLines (Log (SkippingNotGuest t) # es) = t # notGuestLines es"
| "notGuestLines (e # es) = notGuestLines es"

text \<open>
  The four conditions of the filter as predicates on a user record: deleted, guest,
  e-mail address in the excluded domain, and no expiration (absent, or equal to zero
  under \<^verbatim>\<open>==\<close>).
\<close>

definition isDeleted :: "json \<Rightarrow> bool" where
  "isDeleted u = truthy (field u ''is_deleted'')"

definition isGuest :: "json \<Rightarrow> bool" where
  "isGuest u = (truthy (field u ''is_restricted'') \<or> truthy (field u ''is_ultra_restricted''))"

definition inExcludedDomain :: "json \<Rightarrow> bool" where
  "inExcludedDomain u =
     (case field u ''email'' of Some (JStr s) \<Rightarrow> endsWith s ''@domain.com'' | _ \<Rightarrow> False)"

definition missingExpiration :: "runtime \<Rightarrow> json \<Rightarrow> bool" where
  "missingExpiration R u =
     (case field u ''expiration_ts'' of None \<Rightarrow> True | Some v \<Rightarrow> looseEqZero R v = Inr True)"

definition passesFilter :: "runtime \<Rightarrow> json \<Rightarrow> bool" where
  "passesFilter R u =
     (\<not> isDeleted u \<and> isGuest u \<and> \<not> inExcludedDomain u \<and> missingExpiration R u)"

text \<open>The report entry of a user record.\<close>

definition creationText :: "runtime \<Rightarrow> json \<Rightarrow> string" where
  "creationText R u =
     (case field u ''date_created'' of
        None \<Rightarrow> ''Unknown''
      | Some v \<Rightarrow>
          if truthy (Some v)
          then (case isoOfSeconds R v of Some t \<Rightarrow> t | None \<Rightarrow> ''Unknown'')
          else ''Unknown'')"

definition entryOf :: "runtime \<Rightarrow> json \<Rightarrow> guest" where
  "entryOf R u =
     \<lparr>g_email = field u ''email'', g_creation_time = creationText R u,
      g_name = field u ''full_name'', g_id = field u ''id''\<rparr>"

text \<open>The user records of a page, its matches, and the pages a complete run reads.\<close>

fun pageUsers :: "http_outcome \<Rightarrow> json list" where
  "pageUsers (Answers data) = (case field data ''users'' of Some (JArr us) \<Rightarrow> us | _ \<Rightarrow> [])"
| "pageUsers (FetchFails m) = []"

definition pageMatches :: "runtime \<Rightarrow> http_outcome \<Rightarrow> guest list" where
  "pageMatches R a = map (entryOf R) (filter (passesFilter R) (pageUsers a))"

fun hasNext :: "http_outcome \<Rightarrow> bool" where
  "hasNext (Answers data) = truthy (Some (nextCursor data))"
| "hasNext (FetchFails m) = False"

fun fetched :: "http_outcome list \<Rightarrow> http_outcome list" where
  "fetched [] = []"
| "fetched (a # answers) = a # (if hasNext a then fetched answers else [])"

text \<open>The cursor a response leaves in the loop variable.\<close>

fun cursorAfter :: "http_outcome \<Rightarrow> json" where
  "cursorAfter (Answers data) = nextCursor data"
| "cursorAfter (FetchFails m) = JStr []"

text \<open>
  A request that does not give an ok response: the call fails, or the parsed body has
  no truthy \<^verbatim>\<open>ok\<close>.
\<close>

fun notOk :: "http_outcome \<Rightarrow> bool" where
  "notOk (Answers data) = (\<not> truthy (field data ''ok''))"
| "notOk (FetchFails m) = True"

text \<open>
  A page that the loop processes to its end: an ok response with an array of users,
  on each of which the callback returns, and a cursor that can be sent.
\<close>

definition userOk :: "runtime \<Rightarrow> json \<Rightarrow> bool" where
  "userOk R u = (fst (processUser R u initialState) = None)"

fun pageGood :: "runtime \<Rightarrow> http_outcome \<Rightarrow> bool" where
  "pageGood R (Answers data) =
     (truthy (field data ''ok'')
      \<and> (case field data ''users'' of Some (JArr us) \<Rightarrow> list_all (userOk R) us | _ \<Rightarrow> False)
      \<and> (case toString (nextCursor data) of Inl e \<Rightarrow> False | Inr t \<Rightarrow> True))"
| "pageGood R (FetchFails m) = False"

definition goodRun :: "runtime \<Rightarrow> config \<Rightarrow> world \<Rightarrow> bool" where
  "goodRun R cfg w =
     ((case token cfg of None \<Rightarrow> False | Some t \<Rightarrow> t \<noteq> [])
      \<and> teamId cfg \<noteq> []
      \<and> list_all (pageGood R) (fetched (listAnswers w))
      \<and> list_ex (\<lambda>a. \<not> hasNext a) (listAnswers w))"

text \<open>All matches of a run, in order.\<close>

definition allMatches :: "runtime \<Rightarrow> http_outcome list \<Rightarrow> guest list" where
  "allMatches R answers = concat (map (pageMatches R) (fetched answers))"

text \<open>All user records a complete run reads, in order.\<close>

definition fetchedUsers :: "http_outcome list \<Rightarrow> json list" where
  "fetchedUsers answers = concat (map pageUsers (fetched answers))"

text \<open>The first line of the message.\<close>

definition header :: string where
  "header = ''Active guests without expiration:'' @ newline"

text \<open>
  One iteration of the loop after its request has been sent, with the answer \<open>a\<close>:
  the loop is this step, repeated while it falls through and the answer has a cursor.
\<close>

definition pageBody :: "runtime \<Rightarrow> http_outcome \<Rightarrow> state \<Rightarrow> control \<times> state" where
  "pageBody R a s1 =
     (case a of
        FetchFails m \<Rightarrow> (Throw (PlatformError m), s1)
      | Answers data \<Rightarrow>
          (case getProp data ''ok'' of
             Inl e \<Rightarrow> (Throw e, s1)
           | Inr ok \<Rightarrow>
               if \<not> truthy ok then
                 (case toStringU (field data ''error'') of
                    Inl e \<Rightarrow> (Throw e, s1)
                  | Inr t \<Rightarrow> (Return, logLine (Response data) (logLine (ErrorFetching t) s1)))
               else
                 (case field data ''users'' of
                    Some (JArr users) \<Rightarrow>
                      (case forEachUser R users (logLine (TotalUsers (length users)) s1) of
                         (Some e, s2) \<Rightarrow> (Throw e, s2)
                       | (None, s2) \<Rightarrow> (Next, s2))
                  | _ \<Rightarrow> (Return, logLine (UnexpectedUsers data) s1))))"

section \<open>Sample inputs\<close>

text \<open>
  A runtime that agrees with the engine on the values of the samples below:
  the empty string and \<^verbatim>\<open>"0"\<close> convert to zero, and 1722211200 seconds after the epoch
  is 29 July 2024.
\<close>

definition sampleStringIsZero :: "string \<Rightarrow> bool" where
  "sampleStringIsZero s = (s = [] \<or> s = ''0'')"

definition sampleIso :: "json \<Rightarrow> string option" where
  "sampleIso v = (if v = JNum 1722211200 then Some ''2024-07-29T00:00:00.000Z'' else None)"

definition sampleRuntime :: runtime where
  "sampleRuntime = \<lparr>stringIsZero = sampleStringIsZero, isoOfSeconds = sampleIso\<rparr>"

definition sampleConfig :: config where
  "sampleConfig = \<lparr>token = Some ''xoxp-1'', teamId = ''T01'', channel = ''C01''\<rparr>"

definition guestAnn :: json where
  "guestAnn = JObj [(''id'', JStr ''U1''), (''email'', JStr ''ann@example.org''),
     (''full_name'', JStr ''Ann''), (''is_restricted'', JBool True),
     (''is_ultra_restricted'', JBool False), (''date_created'', JNum 1722211200)]"

definition guestBob :: json where
  "guestBob = JObj [(''id'', JStr ''U2''), (''email'', JStr ''bob@example.org''),
     (''full_name'', JStr ''Bob''), (''is_restricted'', JBool False),
     (''is_ultra_restricted'', JBool True), (''expiration_ts'', JNum 0)]"

definition memberCid :: json where
  "memberCid = JObj [(''id'', JStr ''U3''), (''email'', JStr ''cid@example.org''),
     (''full_name'', JStr ''Cid''), (''is_restricted'', JBool False),
     (''is_ultra_restricted'', JBool False)]"

definition guestDan :: json where
  "guestDan = JObj [(''id'', JStr ''U4''), (''email'', JStr ''dan@example.org''),
     (''full_name'', JStr ''Dan''), (''is_restricted'', JBool True),
     (''expiration_ts'', JNum 1767225600)]"

definition deletedEve :: json where
  "deletedEve = JObj [(''id'', JStr ''U5''), (''email'', JStr ''eve@example.org''),
     (''full_name'', JStr ''Eve''), (''is_deleted'', JBool True),
     (''is_restricted'', JBool True)]"

definition guestFay :: json where
  "guestFay = JObj [(''id'', JStr ''U6''), (''email'', JStr ''fay@example.org''),
     (''full_name'', JStr ''Fay''), (''is_restricted'', JBool True),
     (''expiration_ts'', JBool False)]"

definition pageOne :: http_outcome where
  "pageOne = Answers (JObj [(''ok'', JBool True), (''users'', JArr [guestAnn, memberCid]),
     (''response_metadata'', JObj [(''next_cursor'', JStr ''dXNlcjpV'')])])"

definition pageTwo :: http_outcome where
  "pageTwo = Answers (JObj [(''ok'', JBool True), (''users'', JArr [guestDan, guestBob]),
     (''response_metadata'', JObj [(''next_cursor'', JStr [])])])"

definition pageEmpty :: http_outcome where
  "pageEmpty = Answers (JObj [(''ok'', JBool True), (''users'', JArr [memberCid, guestDan])])"

definition pageError :: http_outcome where
  "pageError = Answers (JObj [(''ok'', JBool False), (''error'', JStr ''ratelimited'')])"

definition postOk :: http_outcome where
  "postOk = Answers (JObj [(''ok'', JBool True)])"

definition sampleWorld :: world where
  "sampleWorld = \<lparr>listAnswers = [pageOne, pageTwo], postAnswer = postOk\<rparr>"

definition emptyWorld :: world where
  "emptyWorld = \<lparr>listAnswers = [pageEmpty], postAnswer = postOk\<rparr>"

definition guestGus :: json where
  "guestGus = JObj [(''id'', JStr ''U7''), (''email'', JStr ''gus@domain.com''),
     (''full_name'', JStr ''Gus''), (''is_restricted'', JBool True)]"

definition pageFiltered :: http_outcome where
  "pageFiltered = Answers (JObj [(''ok'', JBool True), (''users'', JArr [deletedEve, guestGus])])"

definition filteredWorld :: world where
  "filteredWorld = \<lparr>listAnswers = [pageFiltered], postAnswer = postOk\<rparr>"


definition errorWorld :: world where
  "errorWorld = \<lparr>listAnswers = [pageOne, pageError, pageTwo], postAnswer = postOk\<rparr>"

section \<open>Auxiliary facts\<close>

subsection \<open>Traces and the callback\<close>

lemma listRequests_append: "listRequests (xs @ ys) = listRequests xs @ listRequests ys"
  by (induction xs rule: listRequests.induct) simp_all

lemma postRequests_append: "postRequests (xs @ ys) = postRequests xs @ postRequests ys"
  by (induction xs rule: postRequests.induct) simp_all

lemma processedUsers_append: "processedUsers (xs @ ys) = processedUsers xs @ processedUsers ys"
  by (induction xs rule: processedUsers.induct) simp_all

lemma notGuestLines_append: "notGuestLines (xs @ ys) = notGuestLines xs @ notGuestLines ys"
  by (induction xs rule: notGuestLines.induct) simp_all

lemmas proj_append = listRequests_append postRequests_append processedUsers_append
  notGuestLines_append


lemma emailExcluded_Inr:
  "emailExcluded (field u ''email'') = Inr b \<Longrightarrow> b = inExcludedDomain u"
  by (cases "field u ''email''" rule: emailExcluded.cases)
     (auto simp: inExcludedDomain_def endsWith_def split: if_splits)

lemma noExpiration_Inr:
  "noExpiration R (field u ''expiration_ts'') = Inr b \<Longrightarrow> b = missingExpiration R u"
  by (cases "field u ''expiration_ts''") (auto simp: missingExpiration_def)

lemma getProp_Inr: "getProp u k = Inr v \<Longrightarrow> v = field u k"
  by (cases u) auto

lemma logWithId_effect:
  assumes "logWithId mk u s = (x, s')"
  shows "guestsWithoutExpiration s' = guestsWithoutExpiration s"
    and "listRequests (trace s') = listRequests (trace s)"
    and "postRequests (trace s') = postRequests (trace s)"
  using assms
  by (auto simp: logWithId_def logLine_def proj_append split: sum.splits)

lemma logWithId_processed:
  assumes "logWithId mk u s = (x, s')" and "\<And>t v. mk t \<noteq> ProcessingUser v"
  shows "processedUsers (trace s') = processedUsers (trace s)"
proof (cases "toStringU (field u ''id'')")
  case (Inl e)
  with assms(1) show ?thesis by (simp add: logWithId_def)
next
  case (Inr t)
  with assms(1) have "trace s' = trace s @ [Log (mk t)]"
    by (auto simp: logWithId_def logLine_def)
  moreover have "processedUsers [Log (mk t)] = []"
    using assms(2)[of t] by (cases "mk t") auto
  ultimately show ?thesis by (simp add: proj_append)
qed

lemma creationTimeOf_effect:
  assumes "creationTimeOf R u s = (r, s')"
  shows "guestsWithoutExpiration s' = guestsWithoutExpiration s"
    and "listRequests (trace s') = listRequests (trace s)"
    and "postRequests (trace s') = postRequests (trace s)"
    and "processedUsers (trace s') = processedUsers (trace s)"
  using assms
  by (auto simp: creationTimeOf_def creationText_def
      dest: logWithId_effect logWithId_processed split: option.splits if_splits prod.splits)


lemma creationTimeOf_text:
  "creationTimeOf R u s = (Inr t, s') \<Longrightarrow> t = creationText R u"
  by (auto simp: creationTimeOf_def creationText_def split: option.splits if_splits prod.splits)

lemma creationTimeOf_guests:
  "creationTimeOf R u s = (r, s') \<Longrightarrow>
     (\<forall>t. r = Inr t \<longrightarrow> t = creationText R u)
     \<and> guestsWithoutExpiration s' = guestsWithoutExpiration s"
  using creationTimeOf_text creationTimeOf_effect(1) by blast

lemma processUser_unfold:
  "processUser R u s =
     (if u = JNull then (Some TypeError, logLine (ProcessingUser u) s)
      else if isDeleted u then logWithId SkippingDeleted u (logLine (ProcessingUser u) s)
      else if \<not> isGuest u then logWithId SkippingNotGuest u (logLine (ProcessingUser u) s)
      else case emailExcluded (field u ''email'') of
             Inl e \<Rightarrow> (Some e, logLine (ProcessingUser u) s)
           | Inr excluded \<Rightarrow>
               if excluded then logWithId SkippingDomain u (logLine (ProcessingUser u) s)
               else case noExpiration R (field u ''expiration_ts'') of
                      Inl e \<Rightarrow> (Some e, logLine (ProcessingUser u) s)
                    | Inr unset \<Rightarrow>
                        if \<not> unset then (None, logLine (ProcessingUser u) s)
                        else case creationTimeOf R u (logLine (ProcessingUser u) s) of
                               (Inl e, s2) \<Rightarrow> (Some e, s2)
                             | (Inr t, s2) \<Rightarrow>
                                 (None, s2\<lparr>guestsWithoutExpiration :=
                                    guestsWithoutExpiration s2 @ [entryOf R u]\<rparr>))"
proof (cases u)
  case JNull
  then show ?thesis by (simp add: processUser_def)
qed (simp_all add: processUser_def Let_def isDeleted_def isGuest_def entryOf_def
      creationTimeOf_text split: sum.splits prod.splits)


lemma processUser_listRequests:
  "processUser R u s = (x, s') \<Longrightarrow> listRequests (trace s') = listRequests (trace s)"
  by (auto simp: processUser_unfold logLine_def proj_append
      dest!: logWithId_effect(2) creationTimeOf_effect(2)
      split: if_splits sum.splits prod.splits)

lemma processUser_postRequests:
  "processUser R u s = (x, s') \<Longrightarrow> postRequests (trace s') = postRequests (trace s)"
  by (auto simp: processUser_unfold logLine_def proj_append
      dest!: logWithId_effect(3) creationTimeOf_effect(3)
      split: if_splits sum.splits prod.splits)

lemma processUser_processed:
  "processUser R u s = (x, s') \<Longrightarrow> processedUsers (trace s') = processedUsers (trace s) @ [u]"
  by (auto simp: processUser_unfold logLine_def proj_append
      dest!: logWithId_processed creationTimeOf_effect(4)
      split: if_splits sum.splits prod.splits)

lemma processUser_guests:
  "processUser R u s = (x, s') \<Longrightarrow>
     guestsWithoutExpiration s' = guestsWithoutExpiration s @
       (if x = None \<and> passesFilter R u then [entryOf R u] else [])"
  by (auto simp: processUser_unfold logLine_def passesFilter_def
      dest!: logWithId_effect(1) creationTimeOf_effect(1) emailExcluded_Inr noExpiration_Inr
      split: if_splits sum.splits prod.splits)


lemma forEachUser_requests:
  "forEachUser R us s = (x, s') \<Longrightarrow>
     listRequests (trace s') = listRequests (trace s)
     \<and> postRequests (trace s') = postRequests (trace s)"
proof (induction us arbitrary: s)
  case Nil
  then show ?case by simp
next
  case (Cons u us)
  obtain y s1 where step: "processUser R u s = (y, s1)" by (cases "processUser R u s")
  show ?case
  proof (cases y)
    case None
    with Cons.prems step have "forEachUser R us s1 = (x, s')" by simp
    from Cons.IH[OF this] processUser_listRequests[OF step] processUser_postRequests[OF step]
    show ?thesis by simp
  next
    case (Some e)
    with Cons.prems step have "s' = s1" by simp
    with processUser_listRequests[OF step] processUser_postRequests[OF step]
    show ?thesis by simp
  qed
qed

lemma forEachUser_done:
  "forEachUser R us s = (None, s') \<Longrightarrow>
     processedUsers (trace s') = processedUsers (trace s) @ us
     \<and> guestsWithoutExpiration s' =
         guestsWithoutExpiration s @ map (entryOf R) (filter (passesFilter R) us)"
proof (induction us arbitrary: s)
  case Nil
  then show ?case by simp
next
  case (Cons u us)
  obtain y s1 where step: "processUser R u s = (y, s1)" by (cases "processUser R u s")
  with Cons.prems have y: "y = None" and rest: "forEachUser R us s1 = (None, s')"
    by (auto split: option.splits)
  from Cons.IH[OF rest] processUser_processed[OF step] processUser_guests[OF step] y
  show ?case by simp
qed

lemma logWithId_fst:
  "fst (logWithId mk u s) = (case toStringU (field u ''id'') of Inl e \<Rightarrow> Some e | Inr t \<Rightarrow> None)"
  by (simp add: logWithId_def split: sum.splits)

lemma creationTimeOf_fst: "fst (creationTimeOf R u s) = fst (creationTimeOf R u s0)"
proof -
  have a: "\<And>mk (s::state) s0. fst (case logWithId mk u s of
                (None, s') \<Rightarrow> (Inr ''Unknown'', s') | (Some e, s') \<Rightarrow> (Inl e, s'))
           = (fst (case logWithId mk u s0 of
                (None, s') \<Rightarrow> (Inr ''Unknown'', s') | (Some e, s') \<Rightarrow> (Inl e, s')) :: exn + string)"
    by (simp add: logWithId_def split: sum.splits)
  show ?thesis
    unfolding creationTimeOf_def
    by (auto split: option.splits simp: a[of _ s s0])
qed

lemma processUser_fst: "fst (processUser R u s) = fst (processUser R u s0)"
  using creationTimeOf_fst[of R u "logLine (ProcessingUser u) s" "logLine (ProcessingUser u) s0"]
  by (auto simp: processUser_unfold logWithId_fst split: sum.splits prod.splits)

lemma forEachUser_ok:
  "list_all (userOk R) us \<Longrightarrow> fst (forEachUser R us s) = None"
proof (induction us arbitrary: s)
  case Nil
  then show ?case by simp
next
  case (Cons u us)
  obtain y s1 where step: "processUser R u s = (y, s1)" by (cases "processUser R u s")
  from Cons.prems have "fst (processUser R u initialState) = None" by (simp add: userOk_def)
  with processUser_fst[of R u s initialState] step have "y = None" by simp
  with step Cons show ?case by simp
qed

subsection \<open>The loop\<close>

lemma fetchPages_Cons:
  "fetchPages R tok team c (a # as) s =
     (case encodeQueryData (buildPayload tok team 100 c) of
        Inl e \<Rightarrow> Some (Throw e, s)
      | Inr fd \<Rightarrow>
          (case pageBody R a (s\<lparr>trace := trace s @ [ListRequest fd]\<rparr>) of
             (Next, s2) \<Rightarrow>
               if hasNext a then fetchPages R tok team (cursorAfter a) as s2 else Some (Next, s2)
           | (Return, s2) \<Rightarrow> Some (Return, s2)
           | (Throw e, s2) \<Rightarrow> Some (Throw e, s2)))"
  by (cases a)
     (auto simp: fetchPages.simps(2) pageBody_def Let_def
      split: sum.splits option.splits json.splits prod.splits)

lemma pageBody_requests:
  "pageBody R a s1 = (ctl, s2) \<Longrightarrow>
     listRequests (trace s2) = listRequests (trace s1)
     \<and> postRequests (trace s2) = postRequests (trace s1)"
  by (auto simp: pageBody_def logLine_def proj_append dest!: forEachUser_requests
      split: sum.splits http_outcome.splits option.splits json.splits prod.splits if_splits)

lemma pageBody_Next:
  "pageBody R a s1 = (Next, s2) \<Longrightarrow>
     processedUsers (trace s2) = processedUsers (trace s1) @ pageUsers a
     \<and> guestsWithoutExpiration s2 = guestsWithoutExpiration s1 @ pageMatches R a"
  by (auto simp: pageBody_def logLine_def proj_append pageMatches_def dest!: forEachUser_done
      split: sum.splits http_outcome.splits option.splits json.splits prod.splits if_splits)

lemma pageBody_notOk: "notOk a \<Longrightarrow> fst (pageBody R a s1) \<noteq> Next"
  by (cases a) (auto simp: pageBody_def dest!: getProp_Inr split: sum.splits)

lemma pageBody_good:
  assumes good: "pageGood R a"
  shows "fst (pageBody R a s1) = Next"
proof (cases a)
  case (FetchFails m)
  with good show ?thesis by simp
next
  case (Answers data)
  with good obtain us where us: "field data ''users'' = Some (JArr us)"
    and ok: "truthy (field data ''ok'')" and all: "list_all (userOk R) us"
    by (auto split: option.splits json.splits)
  from ok have "data \<noteq> JNull" by (cases data) auto
  then have gp: "getProp data ''ok'' = Inr (field data ''ok'')" by (cases data) auto
  from forEachUser_ok[OF all, of "logLine (TotalUsers (length us)) s1"]
  show ?thesis using Answers us ok gp
    by (auto simp: pageBody_def split: prod.splits option.splits)
qed

lemma fetchPages_Cons_cases:
  assumes "fetchPages R tok team c (a # as) s = Some (ctl, s')"
  obtains (encode) e where "encodeQueryData (buildPayload tok team 100 c) = Inl e"
      and "ctl = Throw e" and "s' = s"
  | (stop) fd where "encodeQueryData (buildPayload tok team 100 c) = Inr fd"
      and "pageBody R a (s\<lparr>trace := trace s @ [ListRequest fd]\<rparr>) = (ctl, s')"
      and "ctl \<noteq> Next \<or> \<not> hasNext a"
  | (continue) fd s2 where "encodeQueryData (buildPayload tok team 100 c) = Inr fd"
      and "pageBody R a (s\<lparr>trace := trace s @ [ListRequest fd]\<rparr>) = (Next, s2)"
      and "hasNext a"
      and "fetchPages R tok team (cursorAfter a) as s2 = Some (ctl, s')"
  using assms unfolding fetchPages_Cons
  by (auto split: sum.splits prod.splits control.splits if_splits)

lemma fetchPages_posts:
  "fetchPages R tok team c as s = Some (ctl, s') \<Longrightarrow>
     postRequests (trace s') = postRequests (trace s)"
proof (induction as arbitrary: c s)
  case Nil
  then show ?case by (simp split: sum.splits)
next
  case (Cons a as)
  from Cons.prems show ?case
  proof (cases rule: fetchPages_Cons_cases)
    case (encode e)
    then show ?thesis by simp
  next
    case (stop fd)
    from pageBody_requests[OF stop(2)] show ?thesis by (simp add: proj_append)
  next
    case (continue fd s2)
    from pageBody_requests[OF continue(2)] Cons.IH[OF continue(4)]
    show ?thesis by (simp add: proj_append)
  qed
qed

lemma fetchPages_count:
  "fetchPages R tok team c as s = Some (ctl, s') \<Longrightarrow>
     length (listRequests (trace s')) \<le> length (listRequests (trace s)) + length (fetched as)"
proof (induction as arbitrary: c s)
  case Nil
  then show ?case by (simp split: sum.splits)
next
  case (Cons a as)
  from Cons.prems show ?case
  proof (cases rule: fetchPages_Cons_cases)
    case (encode e)
    then show ?thesis by simp
  next
    case (stop fd)
    from pageBody_requests[OF stop(2)] show ?thesis by (simp add: proj_append)
  next
    case (continue fd s2)
    from pageBody_requests[OF continue(2)] Cons.IH[OF continue(4)] continue(3)
    show ?thesis by (simp add: proj_append)
  qed
qed

lemma fetchPages_Next:
  "fetchPages R tok team c as s = Some (Next, s') \<Longrightarrow>
     guestsWithoutExpiration s' = guestsWithoutExpiration s @ allMatches R as
     \<and> processedUsers (trace s') = processedUsers (trace s) @ concat (map pageUsers (fetched as))
     \<and> length (listRequests (trace s')) = length (listRequests (trace s)) + length (fetched as)"
proof (induction as arbitrary: c s)
  case Nil
  then show ?case by (simp split: sum.splits)
next
  case (Cons a as)
  from Cons.prems show ?case
  proof (cases rule: fetchPages_Cons_cases)
    case (encode e)
    then show ?thesis by simp
  next
    case (stop fd)
    then have "\<not> hasNext a" by simp
    with pageBody_requests[OF stop(2)] pageBody_Next[OF stop(2)]
    show ?thesis by (simp add: proj_append allMatches_def)
  next
    case (continue fd s2)
    from pageBody_requests[OF continue(2)] pageBody_Next[OF continue(2)]
      Cons.IH[OF continue(4)] continue(3)
    show ?thesis by (simp add: proj_append allMatches_def)
  qed
qed


lemma encode_ok:
  "toString c = Inr t \<Longrightarrow> \<exists>fd. encodeQueryData (buildPayload tok team 100 c) = Inr fd"
  by (simp add: encodeQueryData_def buildPayload_def)

lemma pageGood_cursor: "pageGood R a \<Longrightarrow> \<exists>t. toString (cursorAfter a) = Inr t"
  by (cases a) (auto split: sum.splits)

lemma fetchPages_good:
  "list_all (pageGood R) (fetched as) \<Longrightarrow> list_ex (\<lambda>a. \<not> hasNext a) as \<Longrightarrow>
     toString c = Inr t \<Longrightarrow> \<exists>s'. fetchPages R tok team c as s = Some (Next, s')"
proof (induction as arbitrary: c s t)
  case Nil
  then show ?case by simp
next
  case (Cons a as)
  from encode_ok[OF Cons.prems(3)] obtain fd
    where fd: "encodeQueryData (buildPayload tok team 100 c) = Inr fd" by blast
  from Cons.prems(1) have good: "pageGood R a" by simp
  obtain s2 where body: "pageBody R a (s\<lparr>trace := trace s @ [ListRequest fd]\<rparr>) = (Next, s2)"
    using pageBody_good[OF good, of "s\<lparr>trace := trace s @ [ListRequest fd]\<rparr>"]
    by (cases "pageBody R a (s\<lparr>trace := trace s @ [ListRequest fd]\<rparr>)") auto
  show ?case
  proof (cases "hasNext a")
    case True
    with Cons.prems have "list_all (pageGood R) (fetched as)" "list_ex (\<lambda>a. \<not> hasNext a) as"
      by simp_all
    moreover from pageGood_cursor[OF good] obtain t' where "toString (cursorAfter a) = Inr t'"
      by blast
    ultimately obtain s' where "fetchPages R tok team (cursorAfter a) as s2 = Some (Next, s')"
      using Cons.IH by blast
    with fd body True show ?thesis by (simp add: fetchPages_Cons)
  next
    case False
    with fd body show ?thesis by (simp add: fetchPages_Cons)
  qed
qed

subsection \<open>The function around the loop\<close>

lemma postToSlack_effect:
  "postRequests (trace (postToSlack ch msg tok a s)) = postRequests (trace s) @ [(ch, msg, tok)]"
  "listRequests (trace (postToSlack ch msg tok a s)) = listRequests (trace s)"
  "guestsWithoutExpiration (postToSlack ch msg tok a s) = guestsWithoutExpiration s"
  by (auto simp: postToSlack_def Let_def logLine_def proj_append
      split: http_outcome.splits sum.splits)

lemma tryBlock_configured:
  assumes "token cfg = Some tok" and "tok \<noteq> []" and "teamId cfg \<noteq> []"
  shows "tryBlock R cfg w =
     (case fetchPages R tok (teamId cfg) (JStr []) (listAnswers w) initialState of
        None \<Rightarrow> None
      | Some (Next, s1) \<Rightarrow>
          (if guestsWithoutExpiration s1 \<noteq> [] then
             (case buildMessage (guestsWithoutExpiration s1) of
                Inl e \<Rightarrow>
                  Some (Throw e, logLine (GuestsFound (length (guestsWithoutExpiration s1))) s1)
              | Inr message \<Rightarrow>
                  Some (Next, postToSlack (channel cfg) message tok (postAnswer w)
                    (logLine (GuestsFound (length (guestsWithoutExpiration s1))) s1)))
           else Some (Next, logLine NoGuestsFound (logLine (GuestsFound 0) s1)))
      | Some (Return, s1) \<Rightarrow> Some (Return, s1)
      | Some (Throw e, s1) \<Rightarrow> Some (Throw e, s1))"
  using assms
  by (simp add: tryBlock_def Let_def split: option.splits prod.splits control.splits)

lemma tryBlock_unconfigured:
  assumes "token cfg = None \<or> token cfg = Some [] \<or> teamId cfg = []"
  shows "tryBlock R cfg w = Some (Return, logLine TokenMissing initialState)
         \<or> tryBlock R cfg w = Some (Return, logLine TeamIdMissing initialState)"
  using assms by (auto simp: tryBlock_def split: option.splits)

lemma initial_trace:
  "listRequests (trace initialState) = []" "postRequests (trace initialState) = []"
  "processedUsers (trace initialState) = []" "guestsWithoutExpiration initialState = []"
  by (simp_all add: initialState_def)

lemma logLine_proj:
  "listRequests (trace (logLine l s)) = listRequests (trace s)"
  "postRequests (trace (logLine l s)) = postRequests (trace s)"
  by (simp_all add: logLine_def proj_append)

lemma length_fetched: "length (fetched as) \<le> length as"
  by (induction as) auto

lemma fetchPages_notOk:
  "fetchPages R tok team c as s = Some (ctl, s') \<Longrightarrow> i < length as \<Longrightarrow> notOk (as ! i) \<Longrightarrow>
     length (listRequests (trace s)) + i < length (listRequests (trace s')) \<Longrightarrow>
     ctl \<noteq> Next \<and> length (listRequests (trace s')) = length (listRequests (trace s)) + Suc i"
proof (induction as arbitrary: c s i)
  case Nil
  then show ?case by simp
next
  case (Cons a as)
  from Cons.prems(1) show ?case
  proof (cases rule: fetchPages_Cons_cases)
    case (encode e)
    with Cons.prems(4) show ?thesis by simp
  next
    case (stop fd)
    from pageBody_requests[OF stop(2)]
    have n: "length (listRequests (trace s')) = Suc (length (listRequests (trace s)))"
      by (simp add: proj_append)
    with Cons.prems(4) have "i = 0" by simp
    with Cons.prems(3) have "notOk a" by simp
    from pageBody_notOk[OF this, of R "s\<lparr>trace := trace s @ [ListRequest fd]\<rparr>"] stop(2)
    have "ctl \<noteq> Next" by simp
    with n \<open>i = 0\<close> show ?thesis by simp
  next
    case (continue fd s2)
    from pageBody_requests[OF continue(2)]
    have n: "length (listRequests (trace s2)) = Suc (length (listRequests (trace s)))"
      by (simp add: proj_append)
    show ?thesis
    proof (cases i)
      case 0
      with Cons.prems(3) have "notOk a" by simp
      from pageBody_notOk[OF this, of R "s\<lparr>trace := trace s @ [ListRequest fd]\<rparr>"] continue(2)
      show ?thesis by simp
    next
      case (Suc j)
      with Cons.prems n have "j < length as" "notOk (as ! j)"
        "length (listRequests (trace s2)) + j < length (listRequests (trace s'))"
        by simp_all
      from Cons.IH[OF continue(4) this] n Suc show ?thesis by simp
    qed
  qed
qed

lemma notify_cases:
  assumes "notifySlackAboutGuestsWithoutExpiration R cfg w = Some (x, s)"
  obtains (unconfigured) l where "tryBlock R cfg w = Some (Return, s)"
      and "s = logLine l initialState"
  | (configured) tok ctl s1 where "token cfg = Some tok" and "tok \<noteq> []" and "teamId cfg \<noteq> []"
      and "fetchPages R tok (teamId cfg) (JStr []) (listAnswers w) initialState = Some (ctl, s1)"
proof (cases "token cfg = None \<or> token cfg = Some [] \<or> teamId cfg = []")
  case True
  from tryBlock_unconfigured[OF this, of R w] assms
  show ?thesis
    by (auto simp: notifySlackAboutGuestsWithoutExpiration_def intro: unconfigured)
next
  case False
  then obtain tok where tok: "token cfg = Some tok" "tok \<noteq> []" "teamId cfg \<noteq> []" by auto
  from assms have "tryBlock R cfg w \<noteq> None"
    by (auto simp: notifySlackAboutGuestsWithoutExpiration_def split: option.splits)
  then obtain ctl s1 where
    "fetchPages R tok (teamId cfg) (JStr []) (listAnswers w) initialState = Some (ctl, s1)"
    unfolding tryBlock_configured[OF tok] by (auto split: option.splits)
  with tok show ?thesis by (rule configured)
qed

lemma notify_requests:
  assumes "notifySlackAboutGuestsWithoutExpiration R cfg w = Some (x, s)"
    and "token cfg = Some tok" and "tok \<noteq> []" and "teamId cfg \<noteq> []"
    and "fetchPages R tok (teamId cfg) (JStr []) (listAnswers w) initialState = Some (ctl, s1)"
  shows "listRequests (trace s) = listRequests (trace s1)"
    and "ctl \<noteq> Next \<Longrightarrow> postRequests (trace s) = []"
proof -
  note tb = tryBlock_configured[OF assms(2-4), of R w]
  show "listRequests (trace s) = listRequests (trace s1)"
    using assms(1,5) unfolding notifySlackAboutGuestsWithoutExpiration_def tb
    by (auto simp: logLine_proj postToSlack_effect
        split: control.splits if_splits sum.splits)
  assume "ctl \<noteq> Next"
  with assms(1,5) fetchPages_posts[OF assms(5)]
  show "postRequests (trace s) = []"
    unfolding notifySlackAboutGuestsWithoutExpiration_def tb
    by (auto simp: logLine_proj initial_trace split: control.splits)
qed

lemma allMatches_filter:
  "allMatches R answers = map (entryOf R) (filter (passesFilter R) (fetchedUsers answers))"
  by (simp add: allMatches_def fetchedUsers_def pageMatches_def[abs_def] map_concat filter_concat
      comp_def)

lemma sequence_Inr: "sequence rs = Inr xs \<Longrightarrow> map Inr xs = rs"
proof (induction rs arbitrary: xs)
  case Nil
  then show ?case by simp
next
  case (Cons r rs)
  then show ?case by (cases r) (auto split: sum.splits)
qed

lemma buildMessage_Inr:
  "buildMessage gs = Inr msg \<Longrightarrow>
     \<exists>entries. map Inr entries = map renderGuest gs
       \<and> msg = header @ joinWith (newline @ newline) entries"
  by (auto simp: buildMessage_def header_def split: sum.splits dest: sequence_Inr)








section \<open>Properties of the notifier\<close>

subsection \<open>One message for all matches\<close>

lemma sample_run_posted:
  "map_option (postRequests \<circ> trace \<circ> snd)
     (notifySlackAboutGuestsWithoutExpiration sampleRuntime sampleConfig sampleWorld)
   = Some [(''C01'', header @ joinWith (newline @ newline)
       [''*Email*: ann@example.org'' @ newline @ ''*Name*: Ann'' @ newline
          @ ''*Creation Time*: 2024-07-29T00:00:00.000Z'' @ newline @ ''*User ID*: U1'',
        ''*Email*: bob@example.org'' @ newline @ ''*Name*: Bob'' @ newline
          @ ''*Creation Time*: Unknown'' @ newline @ ''*User ID*: U2''], ''xoxp-1'')]"
  "concat (map (\<lambda>a. map (entryOf sampleRuntime) (filter (passesFilter sampleRuntime) (pageUsers a)))
     (fetched (listAnswers sampleWorld)))
   = [entryOf sampleRuntime guestAnn, entryOf sampleRuntime guestBob]"
  "token sampleConfig = Some ''xoxp-1''"
  by code_simp+

lemma sample_good:
  "goodRun sampleRuntime sampleConfig sampleWorld"
  "filter (passesFilter sampleRuntime) (fetchedUsers (listAnswers sampleWorld)) \<noteq> []"
  "buildMessage (map (entryOf sampleRuntime)
      (filter (passesFilter sampleRuntime) (fetchedUsers (listAnswers sampleWorld))))
   = Inr (header @ joinWith (newline @ newline)
       [''*Email*: ann@example.org'' @ newline @ ''*Name*: Ann'' @ newline
          @ ''*Creation Time*: 2024-07-29T00:00:00.000Z'' @ newline @ ''*User ID*: U1'',
        ''*Email*: bob@example.org'' @ newline @ ''*Name*: Bob'' @ newline
          @ ''*Creation Time*: Unknown'' @ newline @ ''*User ID*: U2''])"
  "channel sampleConfig = ''C01''"
  by code_simp+

text \<open>
  Claim C1, as the code has it. Let the token and the team ID be configured, and let
  every request up to the first answer without a continuation cursor give an ok response
  with an array of users on each of which the callback returns. If N > 0 of the records
  read pass all four filters (not deleted, guest, e-mail outside the excluded domain, no
  expiration) and their fields can be rendered, the run returns after exactly one call of
  \<^verbatim>\<open>chat.postMessage\<close>, whose text is the header followed by the N entries of these
  records, in order.
\<close>

theorem one_message_for_all_matches:
  assumes "goodRun R cfg w" and "token cfg = Some tok"
    and "filter (passesFilter R) (fetchedUsers (listAnswers w)) \<noteq> []"
    and "buildMessage (map (entryOf R) (filter (passesFilter R) (fetchedUsers (listAnswers w))))
           = Inr msg"
  shows "\<exists>s entries.
       notifySlackAboutGuestsWithoutExpiration R cfg w = Some (None, s)
     \<and> postRequests (trace s) = [(channel cfg, msg, tok)]
     \<and> msg = header @ joinWith (newline @ newline) entries
     \<and> map Inr entries
         = map (renderGuest \<circ> entryOf R) (filter (passesFilter R) (fetchedUsers (listAnswers w)))"
proof -
  from assms(1,2) have cfg: "token cfg = Some tok" "tok \<noteq> []" "teamId cfg \<noteq> []"
    and good: "list_all (pageGood R) (fetched (listAnswers w))"
    and fin: "list_ex (\<lambda>a. \<not> hasNext a) (listAnswers w)"
    by (auto simp: goodRun_def)
  have "toString (JStr []) = Inr []" by simp
  from fetchPages_good[OF good fin this, of tok "teamId cfg" initialState]
  obtain s1 where run:
    "fetchPages R tok (teamId cfg) (JStr []) (listAnswers w) initialState = Some (Next, s1)"
    by blast
  from fetchPages_Next[OF run]
  have g: "guestsWithoutExpiration s1
      = map (entryOf R) (filter (passesFilter R) (fetchedUsers (listAnswers w)))"
    by (simp add: initial_trace allMatches_filter)
  with assms(3) have ne: "guestsWithoutExpiration s1 \<noteq> []" by simp
  let ?s = "postToSlack (channel cfg) msg tok (postAnswer w)
              (logLine (GuestsFound (length (guestsWithoutExpiration s1))) s1)"
  from run ne assms(4) g have "tryBlock R cfg w = Some (Next, ?s)"
    by (simp add: tryBlock_configured[OF cfg])
  then have n: "notifySlackAboutGuestsWithoutExpiration R cfg w = Some (None, ?s)"
    by (simp add: notifySlackAboutGuestsWithoutExpiration_def)
  from fetchPages_posts[OF run] have p: "postRequests (trace ?s) = [(channel cfg, msg, tok)]"
    by (simp add: postToSlack_effect logLine_proj initial_trace)
  from buildMessage_Inr[OF assms(4)] obtain entries
    where "map Inr entries
         = map (renderGuest \<circ> entryOf R) (filter (passesFilter R) (fetchedUsers (listAnswers w)))"
      and "msg = header @ joinWith (newline @ newline) entries"
    by auto
  with n p show ?thesis by blast
qed

theorem one_message_for_all_matches_witness:
  "goodRun sampleRuntime sampleConfig sampleWorld
   \<and> map_option (postRequests \<circ> trace \<circ> snd)
       (notifySlackAboutGuestsWithoutExpiration sampleRuntime sampleConfig sampleWorld)
     = Some [(''C01'', header @ joinWith (newline @ newline)
       [''*Email*: ann@example.org'' @ newline @ ''*Name*: Ann'' @ newline
          @ ''*Creation Time*: 2024-07-29T00:00:00.000Z'' @ newline @ ''*User ID*: U1'',
        ''*Email*: bob@example.org'' @ newline @ ''*Name*: Bob'' @ newline
          @ ''*Creation Time*: Unknown'' @ newline @ ''*User ID*: U2''], ''xoxp-1'')]"
  using one_message_for_all_matches[OF sample_good(1) sample_run_posted(3) sample_good(2,3)]
    sample_good(1,4)
  by auto

text \<open>
  Claim C1 as stated fails: a page with two guest records lacking an expiration
  timestamp, one deleted and one with an e-mail address in the excluded domain, leads
  to no message at all.
\<close>

theorem filtered_guests_counterexample:
  "listAnswers filteredWorld = [pageFiltered]
   \<and> pageUsers pageFiltered = [deletedEve, guestGus]
   \<and> hasNext pageFiltered = False
   \<and> isGuest deletedEve \<and> field deletedEve ''expiration_ts'' = None
   \<and> isGuest guestGus \<and> \<not> isDeleted guestGus \<and> field guestGus ''expiration_ts'' = None
   \<and> map_option (postRequests \<circ> trace \<circ> snd)
       (notifySlackAboutGuestsWithoutExpiration sampleRuntime sampleConfig filteredWorld) = Some []"
  by code_simp

subsection \<open>The filter\<close>




subsection \<open>A response that is not ok\<close>

lemma sample_run_error:
  "map_option (length \<circ> listRequests \<circ> trace \<circ> snd)
     (notifySlackAboutGuestsWithoutExpiration sampleRuntime sampleConfig errorWorld) = Some 2"
  "notOk (listAnswers errorWorld ! 1)"
  by code_simp+

text \<open>
  Claim C3. If the answer to the request number \<open>i\<close> of a run (counted from 0) is not an
  ok response, that request is the last one of the run, and the run posts no message:
  what was accumulated so far is dropped.
\<close>

theorem notOk_response_aborts:
  assumes "notifySlackAboutGuestsWithoutExpiration R cfg w = Some (x, s)"
    and "i < length (listRequests (trace s))"
    and "notOk (listAnswers w ! i)"
  shows "postRequests (trace s) = [] \<and> length (listRequests (trace s)) = Suc i"
  using assms(1)
proof (cases rule: notify_cases)
  case (unconfigured l)
  with assms(2) show ?thesis by (simp add: logLine_proj initial_trace)
next
  case (configured tok ctl s1)
  note req = notify_requests[OF assms(1) configured]
  from fetchPages_count[OF configured(4)] length_fetched[of "listAnswers w"] assms(2) req(1)
  have i: "i < length (listAnswers w)" by (simp add: initial_trace)
  from assms(2) req(1)
  have "length (listRequests (trace initialState)) + i < length (listRequests (trace s1))"
    by (simp add: initial_trace)
  from fetchPages_notOk[OF configured(4) i assms(3) this]
  have "ctl \<noteq> Next" "length (listRequests (trace s1)) = Suc i" by (simp_all add: initial_trace)
  with req show ?thesis by simp
qed

theorem notOk_response_aborts_witness:
  "notOk (listAnswers errorWorld ! 1)
   \<and> map_option (postRequests \<circ> trace \<circ> snd)
       (notifySlackAboutGuestsWithoutExpiration sampleRuntime sampleConfig errorWorld) = Some []"
proof -
  obtain x s where run:
    "notifySlackAboutGuestsWithoutExpiration sampleRuntime sampleConfig errorWorld = Some (x, s)"
    and n: "length (listRequests (trace s)) = 2"
    using sample_run_error(1) by auto
  from n have "1 < length (listRequests (trace s))" by simp
  from notOk_response_aborts[OF run this sample_run_error(2)] run sample_run_error(2)
  show ?thesis by simp
qed

subsection \<open>No expiration set\<close>

lemma sample_expiration:
  "fst (processUser sampleRuntime guestBob initialState) = None"
  "\<not> isDeleted guestBob" "isGuest guestBob" "\<not> inExcludedDomain guestBob"
  "field guestBob ''expiration_ts'' = Some (JNum 0)"
  "fst (processUser sampleRuntime guestDan initialState) = None"
  "\<not> isDeleted guestDan" "isGuest guestDan" "\<not> inExcludedDomain guestDan"
  "field guestDan ''expiration_ts'' = Some (JNum 1767225600)"
  by code_simp+

text \<open>
  Claim C4, as the code has it. For a user record that reaches the expiration test and
  whose \<^verbatim>\<open>expiration_ts\<close> is absent or a number, the callback accumulates the record
  exactly when the attribute is absent or zero. A value of another type is compared by
  \<^verbatim>\<open>==\<close>: the boolean false counts as no expiration, null does not.
\<close>

theorem expiration_classification:
  assumes "processUser R u s = (None, s')"
    and "\<not> isDeleted u" and "isGuest u" and "\<not> inExcludedDomain u"
    and "field u ''expiration_ts'' = None \<or> (\<exists>n. field u ''expiration_ts'' = Some (JNum n))"
  shows "guestsWithoutExpiration s' = guestsWithoutExpiration s @
           (if field u ''expiration_ts'' = None \<or> field u ''expiration_ts'' = Some (JNum 0)
            then [entryOf R u] else [])
         \<and> noExpiration R (Some (JBool False)) = Inr True
         \<and> noExpiration R (Some JNull) = Inr False"
proof -
  from assms(5) have "missingExpiration R u
      = (field u ''expiration_ts'' = None \<or> field u ''expiration_ts'' = Some (JNum 0))"
    by (auto simp: missingExpiration_def)
  with assms(2-4) processUser_guests[OF assms(1)] show ?thesis
    by (simp add: passesFilter_def)
qed

theorem expiration_classification_witness:
  "guestsWithoutExpiration (snd (processUser sampleRuntime guestBob initialState))
     = [entryOf sampleRuntime guestBob]
   \<and> guestsWithoutExpiration (snd (processUser sampleRuntime guestDan initialState)) = []"
proof -
  obtain s1 where bob: "processUser sampleRuntime guestBob initialState = (None, s1)"
    using sample_expiration(1) by (cases "processUser sampleRuntime guestBob initialState") auto
  obtain s2 where dan: "processUser sampleRuntime guestDan initialState = (None, s2)"
    using sample_expiration(6) by (cases "processUser sampleRuntime guestDan initialState") auto
  from expiration_classification[OF bob sample_expiration(2-4)]
    expiration_classification[OF dan sample_expiration(7-9)]
    sample_expiration(5,10) bob dan
  show ?thesis by (simp add: initial_trace)
qed

text \<open>
  Claim C4 as stated fails: a guest whose \<^verbatim>\<open>expiration_ts\<close> is present with the
  value false, which is neither absent nor the number zero, is accumulated as a guest
  without expiration.
\<close>

theorem boolean_expiration_counterexample:
  "field guestFay ''expiration_ts'' = Some (JBool False)
   \<and> isGuest guestFay
   \<and> guestsWithoutExpiration (snd (processUser sampleRuntime guestFay initialState))
       = [entryOf sampleRuntime guestFay]"
  by code_simp

subsection \<open>The guest test\<close>




subsection \<open>Termination of the loop\<close>




subsection \<open>Errors stay inside\<close>




subsection \<open>No match, no message\<close>

lemma sample_run_empty:
  "map_option fst (fetchPages sampleRuntime ''xoxp-1'' ''T01'' (JStr []) [pageEmpty] initialState) = Some Next"
  "map_option (guestsWithoutExpiration \<circ> snd) (fetchPages sampleRuntime ''xoxp-1'' ''T01'' (JStr []) [pageEmpty] initialState) = Some []"
  by code_simp+

text \<open>
  Claim C8. When the loop has read all pages and no guest without expiration was
  accumulated, the notifier posts nothing: the run ends after the two log lines
  \<^verbatim>\<open>Guests without expiration found: 0\<close> and
  \<^verbatim>\<open>No active guests without expiration found.\<close>, and its trace holds no call of
  \<^verbatim>\<open>chat.postMessage\<close>.
\<close>

theorem no_matches_no_post:
  assumes "token cfg = Some tok" and "tok \<noteq> []" and "teamId cfg \<noteq> []"
    and "fetchPages R tok (teamId cfg) (JStr []) (listAnswers w) initialState = Some (Next, s1)"
    and "guestsWithoutExpiration s1 = []"
  shows "notifySlackAboutGuestsWithoutExpiration R cfg w
           = Some (None, logLine NoGuestsFound (logLine (GuestsFound 0) s1))
         \<and> postRequests (trace (logLine NoGuestsFound (logLine (GuestsFound 0) s1))) = []"
proof -
  from assms have "tryBlock R cfg w = Some (Next, logLine NoGuestsFound (logLine (GuestsFound 0) s1))"
    by (simp add: tryBlock_configured[where tok = tok])
  then have "notifySlackAboutGuestsWithoutExpiration R cfg w
           = Some (None, logLine NoGuestsFound (logLine (GuestsFound 0) s1))"
    by (simp add: notifySlackAboutGuestsWithoutExpiration_def)
  moreover from fetchPages_posts[OF assms(4)]
  have "postRequests (trace (logLine NoGuestsFound (logLine (GuestsFound 0) s1))) = []"
    by (simp add: logLine_proj initial_trace)
  ultimately show ?thesis by simp
qed

theorem no_matches_no_post_witness:
  "map_option (postRequests \<circ> trace \<circ> snd)
     (notifySlackAboutGuestsWithoutExpiration sampleRuntime sampleConfig emptyWorld) = Some []"
proof -
  obtain s1 where run:
    "fetchPages sampleRuntime ''xoxp-1'' (teamId sampleConfig) (JStr []) (listAnswers emptyWorld) initialState = Some (Next, s1)"
    and none: "guestsWithoutExpiration s1 = []"
    using sample_run_empty by (auto simp: sampleConfig_def emptyWorld_def)
  have "token sampleConfig = Some ''xoxp-1''" "''xoxp-1'' \<noteq> []" "teamId sampleConfig \<noteq> []"
    by (simp_all add: sampleConfig_def)
  from no_matches_no_post[OF this run none] show ?thesis by simp
qed

subsection \<open>Order of the report\<close>



subsection \<open>The cursor in the request\<close>




end
